theory Spec2Isabelle
  imports Main
begin

section \<open>The structured-JSON hazard function (object-reader/main.go)\<close>

subsection \<open>Go strings\<close>

text \<open>
  A Go \<open>string\<close> is a sequence of bytes, here a \<open>char list\<close>; a byte below
  128 is an ASCII character and a code point of its own in UTF-8.
\<close>

definition isASCII :: "char \<Rightarrow> bool" where
  "isASCII c = ((of_char c :: nat) < 128)"

definition toUpper_byte :: "char \<Rightarrow> char" where
  "toUpper_byte c =
     (case map_of (zip ''abcdefghijklmnopqrstuvwxyz'' ''ABCDEFGHIJKLMNOPQRSTUVWXYZ'') c of
        Some u \<Rightarrow> u
      | None \<Rightarrow> c)"

text \<open>
  \<open>strings.ToUpper\<close> maps a text code point by code point with
  \<open>unicode.ToUpper\<close>. An ASCII character is mapped to its upper case. What the
  library does from the first byte that is not ASCII on depends on its Unicode tables,
  which are not part of this repository: it is the parameter \<open>upperUnicode\<close>,
  applied to the rest of the text from that byte on.
\<close>

fun ToUpper :: "(string \<Rightarrow> string) \<Rightarrow> string \<Rightarrow> string" where
  "ToUpper upperUnicode [] = []"
| "ToUpper upperUnicode (c # s) =
     (if isASCII c then toUpper_byte c # ToUpper upperUnicode s else upperUnicode (c # s))"

text \<open>\<open>strings.HasPrefix(s, prefix)\<close>:
  \<^verbatim>\<open>len(s) >= len(prefix) && s[:len(prefix)] == prefix\<close>.\<close>

definition HasPrefix :: "string \<Rightarrow> string \<Rightarrow> bool" where
  "HasPrefix s p = (length p \<le> length s \<and> take (length p) s = p)"

subsection \<open>The data of main.go\<close>

text \<open>
  A slice is the list of its elements, and what its array still holds behind them: the
  elements cut off when the slice was made shorter, which come back when it is made
  longer again.
\<close>

record 'a slice =
  elems :: "'a list"
  spare :: "'a list"

definition nilSlice :: "'a slice" where
  "nilSlice = \<lparr>elems = [], spare = []\<rparr>"

record Hazard =
  Position :: string
  Type :: string
  Severity :: string
  Description :: string

record HazardDetection =
  Hazards :: "Hazard slice"
  Severity :: string
  SafeDirection :: string

record HazardDetectionResponse =
  SpeechText :: string
  Severity :: string

subsection \<open>safeguardSeverity\<close>

definition safeguardSeverity :: "(string \<Rightarrow> string) \<Rightarrow> HazardDetection \<Rightarrow> string" where
  "safeguardSeverity upperUnicode detection =
     (if HazardDetection.Severity detection = ''HIGH'' then ''HIGH''
      else if HazardDetection.Severity detection = ''MEDIUM'' then ''MEDIUM''
      else
        let safeDir = ToUpper upperUnicode (SafeDirection detection) in
        if HasPrefix safeDir ''STOP'' then ''HIGH''
        else if HasPrefix safeDir ''CAUTION'' \<or> HasPrefix safeDir ''SLOW'' then ''MEDIUM''
        else ''LOW'')"

subsection \<open>Decoding the model's JSON text\<close>

text \<open>
  \<open>json.Unmarshal\<close> of the Go library is modelled in two steps. Reading the text
  gives a JSON value, or nothing when the text is not valid JSON (a syntax error, found
  before anything is stored); that step is the argument \<open>json option\<close> of
  \<open>Unmarshal\<close>. Storing the value into the struct follows the library's rules:
  a key that matches no field is skipped; a field whose key is absent keeps its value;
  \<open>null\<close> leaves a string or struct as it is and makes a slice nil; a string
  field takes only a JSON string, a struct only a JSON object and a slice only a JSON
  array, anything else is an \<open>UnmarshalTypeError\<close>. The library goes on storing
  after a type error and returns the first one at the end; the caller only tests
  \<open>err != nil\<close>, so the model stops at the first.
\<close>

datatype json =
  JNull
| JBool bool
| JNumber string
| JString string
| JArray "json list"
| JObject "(string \<times> json) list"

datatype unmarshal_error = SyntaxError | UnmarshalTypeError

text \<open>
  A key names a field when it is the field's JSON name, or else when the two are equal
  under the library's case folding, the first such field winning. The folding
  (\<open>foldName\<close>) maps an ASCII character to its upper case; what it does from the
  first byte that is not ASCII on is the parameter \<open>foldUnicode\<close>, as for
  \<open>ToUpper\<close>.
\<close>

fun foldName :: "(string \<Rightarrow> string) \<Rightarrow> string \<Rightarrow> string" where
  "foldName foldUnicode [] = []"
| "foldName foldUnicode (c # s) =
     (if isASCII c then toUpper_byte c # foldName foldUnicode s else foldUnicode (c # s))"

definition fieldOf :: "(string \<Rightarrow> string) \<Rightarrow> string list \<Rightarrow> string \<Rightarrow> string option" where
  "fieldOf foldUnicode names key =
     (if key \<in> set names then Some key
      else find (\<lambda>name. foldName foldUnicode name = foldName foldUnicode key) names)"

fun storeString :: "json \<Rightarrow> string \<Rightarrow> unmarshal_error + string" where
  "storeString JNull cur = Inr cur"
| "storeString (JString s) cur = Inr s"
| "storeString _ cur = Inl UnmarshalTypeError"

fun storeFields ::
  "(string \<Rightarrow> json \<Rightarrow> 'a \<Rightarrow> unmarshal_error + 'a) \<Rightarrow> (string \<times> json) list \<Rightarrow> 'a
     \<Rightarrow> unmarshal_error + 'a" where
  "storeFields f [] a = Inr a"
| "storeFields f ((k, v) # kvs) a =
     (case f k v a of Inl e \<Rightarrow> Inl e | Inr a' \<Rightarrow> storeFields f kvs a')"

definition zeroHazard :: Hazard where
  "zeroHazard = \<lparr>Position = [], Type = [], Hazard.Severity = [], Description = []\<rparr>"

definition hazardFields :: "string list" where
  "hazardFields = [''position'', ''type'', ''severity'', ''description'']"

definition storeHazardField ::
  "(string \<Rightarrow> string) \<Rightarrow> string \<Rightarrow> json \<Rightarrow> Hazard \<Rightarrow> unmarshal_error + Hazard" where
  "storeHazardField foldUnicode k v h =
     (case fieldOf foldUnicode hazardFields k of
        None \<Rightarrow> Inr h
      | Some name \<Rightarrow>
          if name = ''position'' then
            (case storeString v (Position h) of
               Inl e \<Rightarrow> Inl e | Inr s \<Rightarrow> Inr (h\<lparr>Position := s\<rparr>))
          else if name = ''type'' then
            (case storeString v (Type h) of Inl e \<Rightarrow> Inl e | Inr s \<Rightarrow> Inr (h\<lparr>Type := s\<rparr>))
          else if name = ''severity'' then
            (case storeString v (Hazard.Severity h) of
               Inl e \<Rightarrow> Inl e | Inr s \<Rightarrow> Inr (h\<lparr>Hazard.Severity := s\<rparr>))
          else if name = ''description'' then
            (case storeString v (Description h) of
               Inl e \<Rightarrow> Inl e | Inr s \<Rightarrow> Inr (h\<lparr>Description := s\<rparr>))
          else Inr h)"

text \<open>A JSON value is stored into an element that exists: the fields it does not name
  keep what they hold.\<close>

fun storeHazard :: "(string \<Rightarrow> string) \<Rightarrow> json \<Rightarrow> Hazard \<Rightarrow> unmarshal_error + Hazard" where
  "storeHazard foldUnicode JNull h = Inr h"
| "storeHazard foldUnicode (JObject kvs) h = storeFields (storeHazardField foldUnicode) kvs h"
| "storeHazard foldUnicode _ h = Inl UnmarshalTypeError"

text \<open>
  The values of a JSON array are stored one by one into the places of the slice's array,
  which are not cleared before: \<open>mem\<close> is what the array holds from the place of
  the first value on, and a place behind it is new and zero.
\<close>

fun storeHazardList ::
  "(string \<Rightarrow> string) \<Rightarrow> json list \<Rightarrow> Hazard list \<Rightarrow> unmarshal_error + Hazard list" where
  "storeHazardList foldUnicode [] mem = Inr []"
| "storeHazardList foldUnicode (x # xs) mem =
     (case storeHazard foldUnicode x (case mem of [] \<Rightarrow> zeroHazard | h # _ \<Rightarrow> h) of
        Inl e \<Rightarrow> Inl e
      | Inr h \<Rightarrow>
          (case storeHazardList foldUnicode xs (tl mem) of
             Inl e \<Rightarrow> Inl e
           | Inr hs \<Rightarrow> Inr (h # hs)))"

text \<open>
  \<open>null\<close> makes the slice nil, and an empty array makes it a new empty slice
  (the two are not told apart here). After an array of \<open>n\<close> values the slice has \<open>n\<close> elements, and its array
  holds behind them what it held there before.
\<close>

fun storeHazards ::
  "(string \<Rightarrow> string) \<Rightarrow> json \<Rightarrow> Hazard slice \<Rightarrow> unmarshal_error + Hazard slice" where
  "storeHazards foldUnicode JNull sl = Inr nilSlice"
| "storeHazards foldUnicode (JArray xs) sl =
     (if xs = [] then Inr nilSlice
      else
        (case storeHazardList foldUnicode xs (elems sl @ spare sl) of
           Inl e \<Rightarrow> Inl e
         | Inr hs \<Rightarrow> Inr \<lparr>elems = hs, spare = drop (length xs) (elems sl @ spare sl)\<rparr>))"
| "storeHazards foldUnicode _ sl = Inl UnmarshalTypeError"

definition zeroDetection :: HazardDetection where
  "zeroDetection =
     \<lparr>Hazards = nilSlice, HazardDetection.Severity = [], SafeDirection = []\<rparr>"

definition detectionFields :: "string list" where
  "detectionFields = [''hazards'', ''severity'', ''safe_direction'']"

definition storeDetectionField ::
  "(string \<Rightarrow> string) \<Rightarrow> string \<Rightarrow> json \<Rightarrow> HazardDetection
     \<Rightarrow> unmarshal_error + HazardDetection" where
  "storeDetectionField foldUnicode k v d =
     (case fieldOf foldUnicode detectionFields k of
        None \<Rightarrow> Inr d
      | Some name \<Rightarrow>
          if name = ''hazards'' then
            (case storeHazards foldUnicode v (Hazards d) of
               Inl e \<Rightarrow> Inl e | Inr hs \<Rightarrow> Inr (d\<lparr>Hazards := hs\<rparr>))
          else if name = ''severity'' then
            (case storeString v (HazardDetection.Severity d) of
               Inl e \<Rightarrow> Inl e | Inr s \<Rightarrow> Inr (d\<lparr>HazardDetection.Severity := s\<rparr>))
          else if name = ''safe_direction'' then
            (case storeString v (SafeDirection d) of
               Inl e \<Rightarrow> Inl e | Inr s \<Rightarrow> Inr (d\<lparr>SafeDirection := s\<rparr>))
          else Inr d)"

text \<open>\<open>json.Unmarshal([]byte(jsonStr), &detection)\<close> on the freshly declared
  \<open>detection\<close>.\<close>

fun Unmarshal :: "(string \<Rightarrow> string) \<Rightarrow> json option \<Rightarrow> unmarshal_error + HazardDetection" where
  "Unmarshal foldUnicode None = Inl SyntaxError"
| "Unmarshal foldUnicode (Some JNull) = Inr zeroDetection"
| "Unmarshal foldUnicode (Some (JObject kvs)) =
     storeFields (storeDetectionField foldUnicode) kvs zeroDetection"
| "Unmarshal foldUnicode (Some _) = Inl UnmarshalTypeError"

subsection \<open>The end of DetectHazards\<close>

datatype http_response =
  respondWithError nat string
| respondWithJSON nat HazardDetectionResponse

text \<open>
  Lines 592 to 610 of DetectHazards: the model's text is decoded; a decoding error is
  answered with status 500, and otherwise the response carries the decoded
  \<open>safe_direction\<close> and the safeguarded severity with status 200.
\<close>

definition DetectHazards_respond ::
  "(string \<Rightarrow> string) \<Rightarrow> (string \<Rightarrow> string) \<Rightarrow> json option \<Rightarrow> http_response" where
  "DetectHazards_respond upperUnicode foldUnicode jsonStr =
     (case Unmarshal foldUnicode jsonStr of
        Inl err \<Rightarrow> respondWithError 500 ''Error unmarshaling JSON''
      | Inr detection \<Rightarrow>
          respondWithJSON 200
            \<lparr>SpeechText = SafeDirection detection,
             HazardDetectionResponse.Severity = safeguardSeverity upperUnicode detection\<rparr>)"

section \<open>The free-text hazard function (detectHazards/handler.ts)\<close>

subsection \<open>JavaScript strings\<close>

text \<open>
  A JavaScript string is a sequence of UTF-16 code units, here a list of naturals;
  \<open>js\<close> turns a literal into one.
\<close>

type_synonym jsstring = "nat list"

definition js :: "string \<Rightarrow> jsstring" where
  "js s = map of_char s"

text \<open>
  The class \<open>\s\<close> of a regular expression, which is also what \<open>trim\<close>
  removes: the white space and line terminator code points of ECMAScript.
\<close>

definition isSpace :: "nat \<Rightarrow> bool" where
  "isSpace c =
     (c = 9 \<or> c = 10 \<or> c = 11 \<or> c = 12 \<or> c = 13 \<or> c = 32 \<or> c = 160 \<or> c = 5760 \<or>
      (8192 \<le> c \<and> c \<le> 8202) \<or> c = 8232 \<or> c = 8233 \<or> c = 8239 \<or> c = 8287 \<or>
      c = 12288 \<or> c = 65279)"

text \<open>The class \<open>[.\s]\<close>.\<close>

definition dotOrSpace :: "nat \<Rightarrow> bool" where
  "dotOrSpace c = (c = 46 \<or> isSpace c)"

text \<open>
  Upper case of a code unit, on ASCII letters. This is how the flag \<open>i\<close> compares a
  code unit with an ASCII letter of the pattern (without the flag \<open>u\<close> a code unit
  above 127 never matches an ASCII one), and it is \<open>toUpperCase\<close> on the captured
  group, which holds ASCII letters only.
\<close>

definition toUpperUnit :: "nat \<Rightarrow> nat" where
  "toUpperUnit c = (if 97 \<le> c \<and> c \<le> 122 then c - 32 else c)"

definition toUpperCase :: "jsstring \<Rightarrow> jsstring" where
  "toUpperCase s = map toUpperUnit s"

definition trim :: "jsstring \<Rightarrow> jsstring" where
  "trim s = rev (dropWhile isSpace (rev (dropWhile isSpace s)))"

text \<open>\<open>replace(/\s+/g, ' ')\<close>: every maximal run of white space becomes one space.\<close>

function collapseSpaces :: "jsstring \<Rightarrow> jsstring" where
  "collapseSpaces [] = []"
| "collapseSpaces (c # cs) =
     (if isSpace c then 32 # collapseSpaces (dropWhile isSpace cs)
      else c # collapseSpaces cs)"
  by pat_completeness auto
termination
  by (relation "measure length") (auto simp: length_dropWhile_le less_Suc_eq_le)

subsection \<open>The regular expression\<close>

text \<open>
  \<^verbatim>\<open>/(HIGH|MED|LOW)[.\s]*$/i\<close>. At one position of the text the alternatives
  are tried in their order; an alternative matches there when the text has its letters,
  in either case, and only dots and white space follow up to the end of the text.
\<close>

definition alternatives :: "jsstring list" where
  "alternatives = [js ''HIGH'', js ''MED'', js ''LOW'']"

definition matchesAlt :: "jsstring \<Rightarrow> jsstring \<Rightarrow> bool" where
  "matchesAlt s alt =
     (length alt \<le> length s \<and> toUpperCase (take (length alt) s) = alt \<and>
      list_all dotOrSpace (drop (length alt) s))"

definition matchHere :: "jsstring \<Rightarrow> jsstring option" where
  "matchHere s =
     (case find (matchesAlt s) alternatives of
        None \<Rightarrow> None
      | Some alt \<Rightarrow> Some (take (length alt) s))"

text \<open>
  The positions are tried from the left; the first that matches gives the result: the
  text before the match and the captured group. The match itself runs to the end of the
  text.
\<close>

fun regexExec :: "jsstring \<Rightarrow> (jsstring \<times> jsstring) option" where
  "regexExec [] =
     (case matchHere [] of Some g \<Rightarrow> Some ([], g) | None \<Rightarrow> None)"
| "regexExec (c # cs) =
     (case matchHere (c # cs) of
        Some g \<Rightarrow> Some ([], g)
      | None \<Rightarrow>
          (case regexExec cs of
             None \<Rightarrow> None
           | Some (before, g) \<Rightarrow> Some (c # before, g)))"

text \<open>\<open>analysis.replace(regex, '')\<close>: the match, which runs to the end, is cut off.\<close>

definition replaceMatch :: "jsstring \<Rightarrow> jsstring" where
  "replaceMatch analysis =
     (case regexExec analysis of None \<Rightarrow> analysis | Some (before, g) \<Rightarrow> before)"

subsection \<open>processHazardAnalysis\<close>

record HazardDetectionResponseTS =
  speechText :: jsstring
  severity :: jsstring

text \<open>
  The body of the \<open>try\<close> block. Nothing in it throws on a string, so the
  \<open>catch\<close> branch is never taken and is not modelled.
\<close>

definition processHazardAnalysis :: "jsstring \<Rightarrow> HazardDetectionResponseTS" where
  "processHazardAnalysis analysis =
     (let severityMatch = regexExec analysis;
          severity = (case severityMatch of
                        Some (before, g) \<Rightarrow> toUpperCase g
                      | None \<Rightarrow> js ''MED'');
          speechText = collapseSpaces (trim (replaceMatch analysis))
      in if speechText = [] then
           \<lparr>speechText = js ''Unable to analyze image properly'', severity = js ''MED''\<rparr>
         else \<lparr>speechText = speechText, severity = severity\<rparr>)"

section \<open>Checking the image\<close>

subsection \<open>processBase64Image (main.go)\<close>




text \<open>
  \<open>base64.StdEncoding.DecodeString\<close> of the Go library, as its
  \<open>decodeQuantum\<close> reads the text: four characters of the alphabet give three
  bytes; \<open>\r\<close> and \<open>\n\<close> are skipped; the last group may end with one or
  two \<open>=\<close>, after which only \<open>\r\<close> and \<open>\n\<close> may follow; any other
  character, and a text that ends inside a group, is an error. The result is the bytes, or
  nothing for an error.
\<close>

definition encodeStd :: string where
  "encodeStd = ''ABCDEFGHIJKLMNOPQRSTUVWXYZabcdefghijklmnopqrstuvwxyz0123456789+/''"

fun indexFrom :: "nat \<Rightarrow> char \<Rightarrow> string \<Rightarrow> nat option" where
  "indexFrom i c [] = None"
| "indexFrom i c (a # as) = (if c = a then Some i else indexFrom (i + 1) c as)"

definition decodeMap :: "char \<Rightarrow> nat option" where
  "decodeMap c = indexFrom 0 c encodeStd"

definition isNewline :: "char \<Rightarrow> bool" where
  "isNewline c = (c = CHR 0x0A \<or> c = CHR 0x0D)"

text \<open>The bytes of a group of \<open>dlen\<close> six-bit values: \<open>dlen - 1\<close> bytes of
  the 24 bits, the missing values being zero.\<close>

definition quantumBytes :: "nat list \<Rightarrow> nat list" where
  "quantumBytes dbuf =
     (let d = dbuf @ replicate (4 - length dbuf) 0;
          val = d ! 0 * 262144 + d ! 1 * 4096 + d ! 2 * 64 + d ! 3
      in take (length dbuf - 1) [val div 65536 mod 256, val div 256 mod 256, val mod 256])"

text \<open>\<open>dbuf\<close> holds the values of the group that is being read.\<close>

fun decodeFrom :: "nat list \<Rightarrow> string \<Rightarrow> nat list option" where
  "decodeFrom dbuf [] = (if dbuf = [] then Some [] else None)"
| "decodeFrom dbuf (c # src) =
     (case decodeMap c of
        Some out \<Rightarrow>
          if length dbuf = 3 then
            (case decodeFrom [] src of
               None \<Rightarrow> None
             | Some rest \<Rightarrow> Some (quantumBytes (dbuf @ [out]) @ rest))
          else decodeFrom (dbuf @ [out]) src
      | None \<Rightarrow>
          if isNewline c then decodeFrom dbuf src
          else if c \<noteq> CHR ''='' then None
          else if length dbuf < 2 then None
          else if length dbuf = 2 then
            (case dropWhile isNewline src of
               [] \<Rightarrow> None
             | p # after \<Rightarrow>
                 if p \<noteq> CHR ''='' then None
                 else if dropWhile isNewline after = [] then Some (quantumBytes dbuf)
                 else None)
          else if dropWhile isNewline src = [] then Some (quantumBytes dbuf)
          else None)"

definition StdEncoding_DecodeString :: "string \<Rightarrow> nat list option" where
  "StdEncoding_DecodeString s = decodeFrom [] s"


subsection \<open>validateImageData (hazardDetectionService.ts)\<close>



section \<open>Searching places (searchPlacesService.ts)\<close>

text \<open>
  The numbers of JavaScript are a type parameter \<open>'n\<close>, and
  \<open>show\<close> is their conversion to a string in a template literal. The objects
  \<open>distance\<close> and \<open>duration\<close> of the distance matrix are a type parameter
  \<open>'d\<close>; what a place holds besides its location is \<open>'p\<close>. A property
  that is \<open>undefined\<close> is \<open>None\<close>.
\<close>

record 'n Coordinates =
  latitude :: 'n
  longitude :: 'n

record ('n, 'p) Place =
  location :: "'n Coordinates option"
  properties :: 'p

record 'd Element =
  distance :: "'d option"
  duration :: "'d option"

text \<open>What \<open>searchPlaces\<close> returns for one place: the place with the two
  properties added.\<close>

record ('n, 'p, 'd) EnrichedPlace =
  place :: "('n, 'p) Place"
  placeDistance :: "'d option"
  placeDuration :: "'d option"

record 'n PlacesRequest =
  bodyTextQuery :: string
  biasCenter :: "'n Coordinates"
  biasRadius :: 'n
  bodyRankPreference :: string
  fieldMask :: string

record DistanceRequest =
  origins :: string
  destinations :: string
  mode :: string

datatype 'n request =
  PlacesCall "'n PlacesRequest"
| DistanceCall DistanceRequest

datatype search_error =
  ApiError string     \<comment> \<open>\<open>Search Places API error: ...\<close>, from an Axios error\<close>
| TypeError           \<comment> \<open>reading a property of \<open>undefined\<close>\<close>

text \<open>\<open>xs.join(sep)\<close>.\<close>

fun join :: "string \<Rightarrow> string list \<Rightarrow> string" where
  "join sep [] = []"
| "join sep [x] = x"
| "join sep (x # y # ys) = x @ sep @ join sep (y # ys)"

definition latLng :: "('n \<Rightarrow> string) \<Rightarrow> 'n Coordinates \<Rightarrow> string" where
  "latLng show c = show (latitude c) @ '','' @ show (longitude c)"

text \<open>\<open>places.map(place => ({lat: place.location.latitude, ...}))\<close>: a place
  without a location throws.\<close>

fun placeLocations :: "('n, 'p) Place list \<Rightarrow> search_error + 'n Coordinates list" where
  "placeLocations [] = Inr []"
| "placeLocations (p # ps) =
     (case location p of
        None \<Rightarrow> Inl TypeError
      | Some c \<Rightarrow> (case placeLocations ps of Inl e \<Rightarrow> Inl e | Inr cs \<Rightarrow> Inr (c # cs)))"

text \<open>
  \<open>places.map((place, index) => ...)\<close> of the last statement, from
  \<open>index\<close> on. \<open>rows[0].elements\<close> is read once for every place: with no
  first row, or no element at \<open>index\<close>, reading the property throws. A missing
  \<open>rows\<close> or \<open>elements\<close> is the empty list here, which throws alike.
\<close>

fun combine ::
  "('n, 'p) Place list \<Rightarrow> nat \<Rightarrow> 'd Element list list
     \<Rightarrow> search_error + ('n, 'p, 'd) EnrichedPlace list" where
  "combine [] index rows = Inr []"
| "combine (p # ps) index rows =
     (case rows of
        [] \<Rightarrow> Inl TypeError
      | elements # _ \<Rightarrow>
          if index < length elements then
            (case combine ps (Suc index) rows of
               Inl e \<Rightarrow> Inl e
             | Inr rs \<Rightarrow>
                 Inr (\<lparr>place = p, placeDistance = distance (elements ! index),
                       placeDuration = duration (elements ! index)\<rparr> # rs))
          else Inl TypeError)"

text \<open>The body of the request to the place search, and the parameters of the request to
  the distance matrix (the keys are left out).\<close>

definition searchBody :: "string \<Rightarrow> 'n Coordinates \<Rightarrow> 'n \<Rightarrow> string \<Rightarrow> string \<Rightarrow> 'n PlacesRequest" where
  "searchBody textQuery currentCoordinates radius fields' rankPreference =
     \<lparr>bodyTextQuery = textQuery, biasCenter = currentCoordinates, biasRadius = radius,
      bodyRankPreference = rankPreference, fieldMask = fields'\<rparr>"

definition distanceParams ::
  "('n \<Rightarrow> string) \<Rightarrow> 'n Coordinates \<Rightarrow> 'n Coordinates list \<Rightarrow> DistanceRequest" where
  "distanceParams show currentCoordinates dests =
     \<lparr>origins = latLng show currentCoordinates,
      destinations = join ''|'' (map (latLng show) dests),
      mode = ''walking''\<rparr>"

text \<open>
  \<open>searchPlaces\<close>. The two services are the parameters \<open>placesApi\<close> and
  \<open>distanceApi\<close>: each answers a request with its data, or with the message of
  an Axios error. \<open>response.data.places\<close> may be \<open>undefined\<close>. The result
  is the list of the requests made, in their order, and what the function returns or
  throws.
\<close>

definition searchPlaces ::
  "('n \<Rightarrow> string) \<Rightarrow>
   ('n PlacesRequest \<Rightarrow> string + ('n, 'p) Place list option) \<Rightarrow>
   (DistanceRequest \<Rightarrow> string + 'd Element list list) \<Rightarrow>
   string \<Rightarrow> 'n Coordinates \<Rightarrow> 'n \<Rightarrow> string \<Rightarrow> string \<Rightarrow>
   'n request list \<times> (search_error + ('n, 'p, 'd) EnrichedPlace list)" where
  "searchPlaces show placesApi distanceApi textQuery currentCoordinates radius fields' rankPreference =
     (let body = searchBody textQuery currentCoordinates radius fields' rankPreference
      in case placesApi body of
        Inl message \<Rightarrow> ([PlacesCall body], Inl (ApiError message))
      | Inr None \<Rightarrow> ([PlacesCall body], Inl TypeError)
      | Inr (Some found) \<Rightarrow>
          let places = (if length found > 4 then take 4 found else found) in
          (case placeLocations places of
             Inl e \<Rightarrow> ([PlacesCall body], Inl e)
           | Inr dests \<Rightarrow>
               let params = distanceParams show currentCoordinates dests
               in (case distanceApi params of
                     Inl message \<Rightarrow>
                       ([PlacesCall body, DistanceCall params], Inl (ApiError message))
                   | Inr rows \<Rightarrow>
                       ([PlacesCall body, DistanceCall params], combine places 0 rows))))"

section \<open>Notions of the specification\<close>

text \<open>A text begins with a word, ignoring the case of ASCII letters.\<close>

definition startsWithIgnoreCase :: "string \<Rightarrow> string \<Rightarrow> bool" where
  "startsWithIgnoreCase s p =
     (length p \<le> length s \<and> map toUpper_byte (take (length p) s) = map toUpper_byte p)"

text \<open>Some key of a JSON object names the field \<open>f\<close> of \<open>HazardDetection\<close>, as
  the decoder matches keys.\<close>

definition hasKey :: "(string \<Rightarrow> string) \<Rightarrow> string \<Rightarrow> (string \<times> json) list \<Rightarrow> bool" where
  "hasKey foldUnicode f kvs =
     list_ex (\<lambda>kv. fieldOf foldUnicode detectionFields (fst kv) = Some f) kvs"

section \<open>Properties of safeguardSeverity\<close>

lemma safeguardSeverity_range:
  "safeguardSeverity U d = ''HIGH'' \<or> safeguardSeverity U d = ''MEDIUM'' \<or>
   safeguardSeverity U d = ''LOW''"
  by (simp add: safeguardSeverity_def Let_def)

text \<open>
  C2. For every declared severity and safeDirection text the function returns HIGH when the
  declared severity is HIGH, else MEDIUM when it is MEDIUM (whatever the text); else, on
  the upper-cased text, HIGH when it starts with STOP, else MEDIUM when it starts with
  CAUTION or SLOW, else LOW. The first case that applies decides. This holds whatever the
  library's upper case of the code points outside ASCII is.
\<close>

theorem safeguardSeverity_precedence:
  "(HazardDetection.Severity d = ''HIGH'' \<longrightarrow> safeguardSeverity upperUnicode d = ''HIGH'') \<and>
   (HazardDetection.Severity d \<noteq> ''HIGH'' \<and> HazardDetection.Severity d = ''MEDIUM''
      \<longrightarrow> safeguardSeverity upperUnicode d = ''MEDIUM'') \<and>
   (HazardDetection.Severity d \<noteq> ''HIGH'' \<and> HazardDetection.Severity d \<noteq> ''MEDIUM''
      \<longrightarrow>
        (HasPrefix (ToUpper upperUnicode (SafeDirection d)) ''STOP''
           \<longrightarrow> safeguardSeverity upperUnicode d = ''HIGH'') \<and>
        (\<not> HasPrefix (ToUpper upperUnicode (SafeDirection d)) ''STOP'' \<and>
         (HasPrefix (ToUpper upperUnicode (SafeDirection d)) ''CAUTION'' \<or>
          HasPrefix (ToUpper upperUnicode (SafeDirection d)) ''SLOW'')
           \<longrightarrow> safeguardSeverity upperUnicode d = ''MEDIUM'') \<and>
        (\<not> HasPrefix (ToUpper upperUnicode (SafeDirection d)) ''STOP'' \<and>
         \<not> HasPrefix (ToUpper upperUnicode (SafeDirection d)) ''CAUTION'' \<and>
         \<not> HasPrefix (ToUpper upperUnicode (SafeDirection d)) ''SLOW''
           \<longrightarrow> safeguardSeverity upperUnicode d = ''LOW''))"
  by (simp add: safeguardSeverity_def Let_def)

theorem safeguardSeverity_precedence_witness:
  "\<forall>upperUnicode.
     safeguardSeverity upperUnicode
       \<lparr>Hazards = nilSlice, HazardDetection.Severity = ''HIGH'', SafeDirection = ''go ahead''\<rparr>
         = ''HIGH'' \<and>
     safeguardSeverity upperUnicode
       \<lparr>Hazards = nilSlice, HazardDetection.Severity = ''MEDIUM'', SafeDirection = ''STOP now''\<rparr>
         = ''MEDIUM'' \<and>
     HasPrefix (ToUpper upperUnicode ''Stop, stairs ahead'') ''STOP'' \<and>
     safeguardSeverity upperUnicode
       \<lparr>Hazards = nilSlice, HazardDetection.Severity = ''LOW'',
        SafeDirection = ''Stop, stairs ahead''\<rparr> = ''HIGH'' \<and>
     HasPrefix (ToUpper upperUnicode ''slow down'') ''SLOW'' \<and>
     safeguardSeverity upperUnicode
       \<lparr>Hazards = nilSlice, HazardDetection.Severity = [], SafeDirection = ''slow down''\<rparr>
         = ''MEDIUM'' \<and>
     safeguardSeverity upperUnicode
       \<lparr>Hazards = nilSlice, HazardDetection.Severity = ''LOW'', SafeDirection = ''Walk straight''\<rparr>
         = ''LOW''"
proof
  fix U :: "string \<Rightarrow> string"
  have up: "ToUpper U ''Stop, stairs ahead'' = ''STOP, STAIRS AHEAD''"
    "ToUpper U ''slow down'' = ''SLOW DOWN''"
    "ToUpper U ''Walk straight'' = ''WALK STRAIGHT''"
    "ToUpper U ''go ahead'' = ''GO AHEAD''"
    "ToUpper U ''STOP now'' = ''STOP NOW''"
    by (simp_all add: isASCII_def toUpper_byte_def)
  show "safeguardSeverity U
       \<lparr>Hazards = nilSlice, HazardDetection.Severity = ''HIGH'', SafeDirection = ''go ahead''\<rparr>
         = ''HIGH'' \<and>
     safeguardSeverity U
       \<lparr>Hazards = nilSlice, HazardDetection.Severity = ''MEDIUM'', SafeDirection = ''STOP now''\<rparr>
         = ''MEDIUM'' \<and>
     HasPrefix (ToUpper U ''Stop, stairs ahead'') ''STOP'' \<and>
     safeguardSeverity U
       \<lparr>Hazards = nilSlice, HazardDetection.Severity = ''LOW'',
        SafeDirection = ''Stop, stairs ahead''\<rparr> = ''HIGH'' \<and>
     HasPrefix (ToUpper U ''slow down'') ''SLOW'' \<and>
     safeguardSeverity U
       \<lparr>Hazards = nilSlice, HazardDetection.Severity = [], SafeDirection = ''slow down''\<rparr>
         = ''MEDIUM'' \<and>
     safeguardSeverity U
       \<lparr>Hazards = nilSlice, HazardDetection.Severity = ''LOW'', SafeDirection = ''Walk straight''\<rparr>
         = ''LOW''"
    using
      safeguardSeverity_precedence
        [of "\<lparr>Hazards = nilSlice, HazardDetection.Severity = ''HIGH'',
              SafeDirection = ''go ahead''\<rparr>" U]
      safeguardSeverity_precedence
        [of "\<lparr>Hazards = nilSlice, HazardDetection.Severity = ''MEDIUM'',
              SafeDirection = ''STOP now''\<rparr>" U]
      safeguardSeverity_precedence
        [of "\<lparr>Hazards = nilSlice, HazardDetection.Severity = ''LOW'',
              SafeDirection = ''Stop, stairs ahead''\<rparr>" U]
      safeguardSeverity_precedence
        [of "\<lparr>Hazards = nilSlice, HazardDetection.Severity = [],
              SafeDirection = ''slow down''\<rparr>" U]
      safeguardSeverity_precedence
        [of "\<lparr>Hazards = nilSlice, HazardDetection.Severity = ''LOW'',
              SafeDirection = ''Walk straight''\<rparr>" U]
    by (simp add: up HasPrefix_def del: ToUpper.simps)
qed


text \<open>
  A text that begins with the letter U+017F (the bytes C5 BF) and \<open>top\<close>: the
  library's upper case of it begins with STOP, and the function returns HIGH.
\<close>

lemma safeguardSeverity_long_s:
  assumes "HasPrefix (upperUnicode (CHR 0xC5 # CHR 0xBF # ''top'')) ''STOP''"
  shows "safeguardSeverity upperUnicode
           \<lparr>Hazards = nilSlice, HazardDetection.Severity = ''LOW'',
            SafeDirection = CHR 0xC5 # CHR 0xBF # ''top''\<rparr> = ''HIGH''"
  using assms by (simp add: safeguardSeverity_def isASCII_def)

text \<open>
  C3. The function is deterministic: its result depends on the declared severity and the
  safeDirection text only, so the same pair always gives the same result. It is
  idempotent: with its own result put back as the declared severity and the text
  unchanged, it returns that result again.
\<close>

theorem safeguardSeverity_idempotent:
  "(HazardDetection.Severity d = HazardDetection.Severity d' \<and>
    SafeDirection d = SafeDirection d'
      \<longrightarrow> safeguardSeverity upperUnicode d = safeguardSeverity upperUnicode d') \<and>
   safeguardSeverity upperUnicode
     (d\<lparr>HazardDetection.Severity := safeguardSeverity upperUnicode d\<rparr>)
     = safeguardSeverity upperUnicode d"
  by (simp add: safeguardSeverity_def Let_def)

theorem safeguardSeverity_idempotent_witness:
  "\<forall>upperUnicode.
     safeguardSeverity upperUnicode
       \<lparr>Hazards = nilSlice, HazardDetection.Severity = ''LOW'', SafeDirection = ''stop''\<rparr> =
     safeguardSeverity upperUnicode
       \<lparr>Hazards = \<lparr>elems = [zeroHazard], spare = []\<rparr>, HazardDetection.Severity = ''LOW'',
        SafeDirection = ''stop''\<rparr> \<and>
     safeguardSeverity upperUnicode
       \<lparr>Hazards = nilSlice, HazardDetection.Severity = ''LOW'', SafeDirection = ''stop''\<rparr>
       = ''HIGH'' \<and>
     safeguardSeverity upperUnicode
       \<lparr>Hazards = nilSlice, HazardDetection.Severity = ''HIGH'', SafeDirection = ''stop''\<rparr>
       = ''HIGH''"
proof
  fix U :: "string \<Rightarrow> string"
  have up: "ToUpper U ''stop'' = ''STOP''"
    by (simp add: isASCII_def toUpper_byte_def)
  have low: "safeguardSeverity U
       \<lparr>Hazards = nilSlice, HazardDetection.Severity = ''LOW'', SafeDirection = ''stop''\<rparr>
       = ''HIGH''"
    by (simp add: safeguardSeverity_def up HasPrefix_def del: ToUpper.simps)
  have low': "safeguardSeverity U
       \<lparr>Hazards = \<lparr>elems = [zeroHazard], spare = []\<rparr>, HazardDetection.Severity = ''LOW'',
        SafeDirection = ''stop''\<rparr> = ''HIGH''"
    by (simp add: safeguardSeverity_def up HasPrefix_def del: ToUpper.simps)
  have high: "safeguardSeverity U
       \<lparr>Hazards = nilSlice, HazardDetection.Severity = ''HIGH'', SafeDirection = ''stop''\<rparr>
       = ''HIGH''"
    by (simp add: safeguardSeverity_def)
  show "safeguardSeverity U
       \<lparr>Hazards = nilSlice, HazardDetection.Severity = ''LOW'', SafeDirection = ''stop''\<rparr> =
     safeguardSeverity U
       \<lparr>Hazards = \<lparr>elems = [zeroHazard], spare = []\<rparr>, HazardDetection.Severity = ''LOW'',
        SafeDirection = ''stop''\<rparr> \<and>
     safeguardSeverity U
       \<lparr>Hazards = nilSlice, HazardDetection.Severity = ''LOW'', SafeDirection = ''stop''\<rparr>
       = ''HIGH'' \<and>
     safeguardSeverity U
       \<lparr>Hazards = nilSlice, HazardDetection.Severity = ''HIGH'', SafeDirection = ''stop''\<rparr>
       = ''HIGH''"
    using
      safeguardSeverity_idempotent
        [of "\<lparr>Hazards = nilSlice, HazardDetection.Severity = ''LOW'', SafeDirection = ''stop''\<rparr>"
            "\<lparr>Hazards = \<lparr>elems = [zeroHazard], spare = []\<rparr>,
              HazardDetection.Severity = ''LOW'', SafeDirection = ''stop''\<rparr>" U]
    by (simp add: low low' high del: ToUpper.simps)
qed

section \<open>The response of the structured-JSON function\<close>

lemma toUpper_byte_ASCII: "isASCII (toUpper_byte c) \<Longrightarrow> isASCII c"
  by (auto simp: toUpper_byte_def isASCII_def split: if_splits)

lemma ToUpper_ASCII_prefix:
  "list_all isASCII a \<Longrightarrow> ToUpper U (a @ s) = map toUpper_byte a @ ToUpper U s"
  by (induction a) simp_all

lemma startsWith_HasPrefix:
  assumes p: "list_all isASCII p" "map toUpper_byte p = p"
    and s: "startsWithIgnoreCase s p"
  shows "HasPrefix (ToUpper U s) p"
proof -
  let ?a = "take (length p) s"
  from s have len: "length p \<le> length s" and up: "map toUpper_byte ?a = p"
    by (simp_all add: startsWithIgnoreCase_def p(2))
  have "list_all isASCII ?a"
    unfolding list_all_iff
  proof
    fix c assume "c \<in> set ?a"
    then have "toUpper_byte c \<in> set (map toUpper_byte ?a)" by simp
    with up p(1) have "isASCII (toUpper_byte c)"
      by (simp add: list_all_iff)
    then show "isASCII c" by (rule toUpper_byte_ASCII)
  qed
  from ToUpper_ASCII_prefix [OF this, of U "drop (length p) s"]
  have "ToUpper U s = p @ ToUpper U (drop (length p) s)"
    by (simp add: up)
  then show ?thesis
    by (simp add: HasPrefix_def)
qed

lemma words_ASCII:
  "list_all isASCII ''STOP''" "list_all isASCII ''CAUTION''" "list_all isASCII ''SLOW''"
  by (simp_all add: isASCII_def)

lemma upper_words:
  "map toUpper_byte ''STOP'' = ''STOP''"
  "map toUpper_byte ''CAUTION'' = ''CAUTION''"
  "map toUpper_byte ''SLOW'' = ''SLOW''"
  by (simp_all add: toUpper_byte_def)

lemma safeguardSeverity_text:
  "(startsWithIgnoreCase (SafeDirection d) ''STOP'' \<longrightarrow>
      safeguardSeverity U d = ''HIGH'' \<or> safeguardSeverity U d = ''MEDIUM'') \<and>
   (startsWithIgnoreCase (SafeDirection d) ''CAUTION'' \<or>
    startsWithIgnoreCase (SafeDirection d) ''SLOW'' \<longrightarrow>
      safeguardSeverity U d = ''HIGH'' \<or> safeguardSeverity U d = ''MEDIUM'')"
  using startsWith_HasPrefix [OF words_ASCII(1) upper_words(1), of "SafeDirection d" U]
    startsWith_HasPrefix [OF words_ASCII(2) upper_words(2), of "SafeDirection d" U]
    startsWith_HasPrefix [OF words_ASCII(3) upper_words(3), of "SafeDirection d" U]
  by (auto simp: safeguardSeverity_def Let_def)

text \<open>
  C1, as amended. On the structured-JSON path every success response carries a severity
  that is HIGH or MEDIUM, never LOW, when its speechText begins with STOP, CAUTION or SLOW
  in any case of the letters. (The free-text path has no such guarantee.)
\<close>

theorem DetectHazards_severity_floor:
  assumes "DetectHazards_respond upperUnicode foldUnicode jsonStr = respondWithJSON status r"
  shows "(startsWithIgnoreCase (SpeechText r) ''STOP'' \<longrightarrow>
            HazardDetectionResponse.Severity r \<noteq> ''LOW'' \<and>
            (HazardDetectionResponse.Severity r = ''HIGH'' \<or>
             HazardDetectionResponse.Severity r = ''MEDIUM'')) \<and>
         (startsWithIgnoreCase (SpeechText r) ''CAUTION'' \<or>
          startsWithIgnoreCase (SpeechText r) ''SLOW'' \<longrightarrow>
            HazardDetectionResponse.Severity r \<noteq> ''LOW'' \<and>
            (HazardDetectionResponse.Severity r = ''HIGH'' \<or>
             HazardDetectionResponse.Severity r = ''MEDIUM''))"
proof -
  from assms obtain d where
    r: "r = \<lparr>SpeechText = SafeDirection d,
              HazardDetectionResponse.Severity = safeguardSeverity upperUnicode d\<rparr>"
    by (auto simp: DetectHazards_respond_def split: sum.splits)
  show ?thesis
    using safeguardSeverity_text [of d upperUnicode] by (auto simp: r)
qed


lemma fieldOf_exact:
  "fieldOf F detectionFields ''hazards'' = Some ''hazards''"
  "fieldOf F detectionFields ''severity'' = Some ''severity''"
  "fieldOf F detectionFields ''safe_direction'' = Some ''safe_direction''"
  by (simp_all add: fieldOf_def detectionFields_def)

lemma fieldOf_folded:
  "fieldOf F detectionFields ''Severity'' = Some ''severity''"
  by (simp add: fieldOf_def detectionFields_def isASCII_def toUpper_byte_def)

theorem DetectHazards_severity_floor_witness:
  "\<forall>upperUnicode foldUnicode.
     DetectHazards_respond upperUnicode foldUnicode
       (Some (JObject [(''Severity'', JString ''LOW''), (''safe_direction'', JString ''stop now'')]))
       = respondWithJSON 200
           \<lparr>SpeechText = ''stop now'', HazardDetectionResponse.Severity = ''HIGH''\<rparr> \<and>
     startsWithIgnoreCase ''stop now'' ''STOP'' \<and>
     DetectHazards_respond upperUnicode foldUnicode
       (Some (JObject [(''safe_direction'', JString ''Caution, wet floor'')]))
       = respondWithJSON 200
           \<lparr>SpeechText = ''Caution, wet floor'', HazardDetectionResponse.Severity = ''MEDIUM''\<rparr> \<and>
     startsWithIgnoreCase ''Caution, wet floor'' ''CAUTION''"
proof (intro allI)
  fix U F :: "string \<Rightarrow> string"
  have up: "ToUpper U ''stop now'' = ''STOP NOW''"
    "ToUpper U ''Caution, wet floor'' = ''CAUTION, WET FLOOR''"
    by (simp_all add: isASCII_def toUpper_byte_def)
  have a: "DetectHazards_respond U F
     (Some (JObject [(''Severity'', JString ''LOW''), (''safe_direction'', JString ''stop now'')]))
     = respondWithJSON 200
         \<lparr>SpeechText = ''stop now'', HazardDetectionResponse.Severity = ''HIGH''\<rparr>"
    by (simp add: DetectHazards_respond_def storeDetectionField_def fieldOf_exact fieldOf_folded
        zeroDetection_def safeguardSeverity_def up HasPrefix_def del: ToUpper.simps)
  have b: "DetectHazards_respond U F
     (Some (JObject [(''safe_direction'', JString ''Caution, wet floor'')]))
     = respondWithJSON 200
         \<lparr>SpeechText = ''Caution, wet floor'', HazardDetectionResponse.Severity = ''MEDIUM''\<rparr>"
    by (simp add: DetectHazards_respond_def storeDetectionField_def fieldOf_exact
        zeroDetection_def safeguardSeverity_def up HasPrefix_def del: ToUpper.simps)
  show "DetectHazards_respond U F
       (Some (JObject [(''Severity'', JString ''LOW''), (''safe_direction'', JString ''stop now'')]))
       = respondWithJSON 200
           \<lparr>SpeechText = ''stop now'', HazardDetectionResponse.Severity = ''HIGH''\<rparr> \<and>
     startsWithIgnoreCase ''stop now'' ''STOP'' \<and>
     DetectHazards_respond U F
       (Some (JObject [(''safe_direction'', JString ''Caution, wet floor'')]))
       = respondWithJSON 200
           \<lparr>SpeechText = ''Caution, wet floor'', HazardDetectionResponse.Severity = ''MEDIUM''\<rparr> \<and>
     startsWithIgnoreCase ''Caution, wet floor'' ''CAUTION''"
    using DetectHazards_severity_floor [OF a] DetectHazards_severity_floor [OF b] a b
    by (simp add: startsWithIgnoreCase_def toUpper_byte_def)
qed

text \<open>
  A key \<open>severity\<close> written with the letter U+017F, which the library folds to
  \<open>s\<close>, names the field, and its value is stored.
\<close>

lemma hasKey_long_s:
  assumes "foldUnicode (CHR 0xC5 # CHR 0xBF # ''everity'') = ''SEVERITY''"
  shows "hasKey foldUnicode ''severity'' [(CHR 0xC5 # CHR 0xBF # ''everity'', JString ''HIGH'')]"
    and "Unmarshal foldUnicode
           (Some (JObject [(CHR 0xC5 # CHR 0xBF # ''everity'', JString ''HIGH'')]))
         = Inr (zeroDetection\<lparr>HazardDetection.Severity := ''HIGH''\<rparr>)"
proof -
  have "fieldOf foldUnicode detectionFields (CHR 0xC5 # CHR 0xBF # ''everity'') = Some ''severity''"
    using assms
    by (simp add: fieldOf_def detectionFields_def isASCII_def toUpper_byte_def)
  then show "hasKey foldUnicode ''severity''
      [(CHR 0xC5 # CHR 0xBF # ''everity'', JString ''HIGH'')]"
    and "Unmarshal foldUnicode
           (Some (JObject [(CHR 0xC5 # CHR 0xBF # ''everity'', JString ''HIGH'')]))
         = Inr (zeroDetection\<lparr>HazardDetection.Severity := ''HIGH''\<rparr>)"
    by (simp_all add: hasKey_def storeDetectionField_def)
qed

lemma storeFields_absent:
  assumes "storeFields (storeDetectionField F) kvs d0 = Inr d"
  shows "(\<not> hasKey F ''severity'' kvs
            \<longrightarrow> HazardDetection.Severity d = HazardDetection.Severity d0) \<and>
         (\<not> hasKey F ''safe_direction'' kvs \<longrightarrow> SafeDirection d = SafeDirection d0)"
  using assms
proof (induction kvs arbitrary: d0)
  case Nil
  then show ?case by simp
next
  case (Cons kv kvs)
  obtain k v where kv: "kv = (k, v)" by (cases kv)
  from Cons.prems kv obtain d1 where
    d1: "storeDetectionField F k v d0 = Inr d1"
    and rest: "storeFields (storeDetectionField F) kvs d1 = Inr d"
    by (auto split: sum.splits)
  from d1 have
    "(fieldOf F detectionFields k \<noteq> Some ''severity''
        \<longrightarrow> HazardDetection.Severity d1 = HazardDetection.Severity d0) \<and>
     (fieldOf F detectionFields k \<noteq> Some ''safe_direction''
        \<longrightarrow> SafeDirection d1 = SafeDirection d0)"
    by (auto simp: storeDetectionField_def split: if_splits sum.splits option.splits)
  with Cons.IH [OF rest] show ?case
    by (auto simp: hasKey_def kv)
qed

lemma safeguardSeverity_empty:
  "HazardDetection.Severity d = [] \<Longrightarrow> SafeDirection d = [] \<Longrightarrow>
     safeguardSeverity U d = ''LOW''"
  by (simp add: safeguardSeverity_def HasPrefix_def)

text \<open>
  C7, as the claim states it, fails: the text \<open>{}\<close>, a JSON object without
  \<open>severity\<close> and \<open>safe_direction\<close>, is answered with status 200. (The text has
  no byte that is not ASCII, so the two parameters play no part.)
\<close>

theorem DetectHazards_empty_object_succeeds:
  "DetectHazards_respond (\<lambda>s. s) (\<lambda>s. s) (Some (JObject []))
     = respondWithJSON 200 \<lparr>SpeechText = [], HazardDetectionResponse.Severity = ''LOW''\<rparr>"
  by (simp add: DetectHazards_respond_def zeroDetection_def safeguardSeverity_def HasPrefix_def)

text \<open>
  C7, as amended. The function answers with the error of status 500, and with no success
  response, whenever decoding the model's text fails, in particular when the text is not
  valid JSON. Absent fields are no decoding error: when an object in which no key names
  \<open>severity\<close> or \<open>safe_direction\<close> decodes, both are the empty string and the
  response is a success with an empty speechText and the severity LOW.
\<close>

theorem DetectHazards_malformed_output:
  "(Unmarshal foldUnicode jsonStr = Inl e \<longrightarrow>
      DetectHazards_respond upperUnicode foldUnicode jsonStr
        = respondWithError 500 ''Error unmarshaling JSON'') \<and>
   DetectHazards_respond upperUnicode foldUnicode None
     = respondWithError 500 ''Error unmarshaling JSON'' \<and>
   (\<not> hasKey foldUnicode ''severity'' kvs \<and> \<not> hasKey foldUnicode ''safe_direction'' kvs \<and>
    Unmarshal foldUnicode (Some (JObject kvs)) = Inr d \<longrightarrow>
      DetectHazards_respond upperUnicode foldUnicode (Some (JObject kvs))
        = respondWithJSON 200 \<lparr>SpeechText = [], HazardDetectionResponse.Severity = ''LOW''\<rparr>)"
proof (intro conjI impI)
  assume "Unmarshal foldUnicode jsonStr = Inl e"
  then show "DetectHazards_respond upperUnicode foldUnicode jsonStr
    = respondWithError 500 ''Error unmarshaling JSON''"
    by (simp add: DetectHazards_respond_def)
next
  show "DetectHazards_respond upperUnicode foldUnicode None
    = respondWithError 500 ''Error unmarshaling JSON''"
    by (simp add: DetectHazards_respond_def)
next
  assume a: "\<not> hasKey foldUnicode ''severity'' kvs \<and>
    \<not> hasKey foldUnicode ''safe_direction'' kvs \<and>
    Unmarshal foldUnicode (Some (JObject kvs)) = Inr d"
  then have "storeFields (storeDetectionField foldUnicode) kvs zeroDetection = Inr d"
    by simp
  from storeFields_absent [OF this] a
  have "HazardDetection.Severity d = []" and "SafeDirection d = []"
    by (simp_all add: zeroDetection_def)
  then show "DetectHazards_respond upperUnicode foldUnicode (Some (JObject kvs))
        = respondWithJSON 200 \<lparr>SpeechText = [], HazardDetectionResponse.Severity = ''LOW''\<rparr>"
    using a by (simp add: DetectHazards_respond_def safeguardSeverity_empty)
qed

theorem DetectHazards_malformed_output_witness:
  "\<forall>upperUnicode foldUnicode.
     Unmarshal foldUnicode (Some (JObject [(''severity'', JNumber ''3'')]))
       = Inl UnmarshalTypeError \<and>
     DetectHazards_respond upperUnicode foldUnicode (Some (JObject [(''severity'', JNumber ''3'')]))
       = respondWithError 500 ''Error unmarshaling JSON'' \<and>
     \<not> hasKey foldUnicode ''severity'' [(''hazards'', JArray [])] \<and>
     \<not> hasKey foldUnicode ''safe_direction'' [(''hazards'', JArray [])] \<and>
     Unmarshal foldUnicode (Some (JObject [(''hazards'', JArray [])])) = Inr zeroDetection \<and>
     DetectHazards_respond upperUnicode foldUnicode (Some (JObject [(''hazards'', JArray [])]))
       = respondWithJSON 200 \<lparr>SpeechText = [], HazardDetectionResponse.Severity = ''LOW''\<rparr>"
proof (intro allI)
  fix U F :: "string \<Rightarrow> string"
  have a: "Unmarshal F (Some (JObject [(''severity'', JNumber ''3'')])) = Inl UnmarshalTypeError"
    by (simp add: storeDetectionField_def fieldOf_exact)
  have b: "\<not> hasKey F ''severity'' [(''hazards'', JArray [])] \<and>
    \<not> hasKey F ''safe_direction'' [(''hazards'', JArray [])] \<and>
    Unmarshal F (Some (JObject [(''hazards'', JArray [])])) = Inr zeroDetection"
    by (simp add: hasKey_def storeDetectionField_def fieldOf_exact zeroDetection_def)
  show "Unmarshal F (Some (JObject [(''severity'', JNumber ''3'')]))
       = Inl UnmarshalTypeError \<and>
     DetectHazards_respond U F (Some (JObject [(''severity'', JNumber ''3'')]))
       = respondWithError 500 ''Error unmarshaling JSON'' \<and>
     \<not> hasKey F ''severity'' [(''hazards'', JArray [])] \<and>
     \<not> hasKey F ''safe_direction'' [(''hazards'', JArray [])] \<and>
     Unmarshal F (Some (JObject [(''hazards'', JArray [])])) = Inr zeroDetection \<and>
     DetectHazards_respond U F (Some (JObject [(''hazards'', JArray [])]))
       = respondWithJSON 200 \<lparr>SpeechText = [], HazardDetectionResponse.Severity = ''LOW''\<rparr>"
    using a b
      DetectHazards_malformed_output
        [of F "Some (JObject [(''severity'', JNumber ''3'')])" UnmarshalTypeError U
            "[(''hazards'', JArray [])]" zeroDetection]
    by simp
qed

section \<open>The regular expression finds the trailing token\<close>

lemma alternatives_eq: "alternatives = [[72, 73, 71, 72], [77, 69, 68], [76, 79, 87]]"
  by (simp add: alternatives_def js_def)

lemma dotOrSpace_upper: "dotOrSpace c \<Longrightarrow> toUpperUnit c = c"
  by (auto simp: dotOrSpace_def isSpace_def toUpperUnit_def)

lemma letter_not_dotOrSpace:
  "toUpperUnit c \<in> {72, 73, 71, 77, 69, 68, 76, 79, 87} \<Longrightarrow> \<not> dotOrSpace c"
proof
  assume l: "toUpperUnit c \<in> {72, 73, 71, 77, 69, 68, 76, 79, 87}" and d: "dotOrSpace c"
  from d have "toUpperUnit c = c" by (rule dotOrSpace_upper)
  with l have "c \<in> {72, 73, 71, 77, 69, 68, 76, 79, 87}" by simp
  with d show False by (auto simp: dotOrSpace_def isSpace_def)
qed

lemma token_units:
  assumes "toUpperCase g \<in> set alternatives" and "c \<in> set g"
  shows "\<not> dotOrSpace c"
proof -
  from assms have "toUpperUnit c \<in> set (toUpperCase g)"
    by (simp add: toUpperCase_def)
  with assms(1) have "toUpperUnit c \<in> {72, 73, 71, 77, 69, 68, 76, 79, 87}"
    by (auto simp: alternatives_eq)
  then show ?thesis by (rule letter_not_dotOrSpace)
qed

lemma token_nonempty: "toUpperCase g \<in> set alternatives \<Longrightarrow> g \<noteq> []"
  by (auto simp: alternatives_eq toUpperCase_def)

lemma dropWhile_tail:
  assumes "w \<noteq> []" and "\<not> P (last w)" and "list_all P rest"
  shows "dropWhile P (rev (w @ rest)) = rev w"
proof -
  from assms(3) have 1: "dropWhile P (rev rest @ rev w) = dropWhile P (rev w)"
    by (intro dropWhile_append2) (simp add: list_all_iff)
  from assms(1) obtain u l where w: "w = u @ [l]"
    by (cases w rule: rev_cases) auto
  with assms(2) have "\<not> P l" by simp
  then have 2: "dropWhile P (rev w) = rev w"
    by (simp add: w)
  show ?thesis
    by (simp only: rev_append 1 2)
qed

lemma matchesAlt_tail:
  assumes "alt \<in> set alternatives" and "matchesAlt s alt"
  shows "dropWhile dotOrSpace (rev s) = rev (take (length alt) s)"
proof -
  let ?w = "take (length alt) s"
  from assms(2) have up: "toUpperCase ?w = alt" and rest: "list_all dotOrSpace (drop (length alt) s)"
    by (simp_all add: matchesAlt_def)
  from up assms(1) have ne: "?w \<noteq> []"
    by (metis token_nonempty)
  from up assms(1) have "toUpperCase ?w \<in> set alternatives" by simp
  then have "\<not> dotOrSpace (last ?w)"
    using ne by (intro token_units [of ?w]) simp_all
  from dropWhile_tail [OF ne this rest] show ?thesis by simp
qed

lemma no_token_inside:
  assumes "x \<noteq> []" and "toUpperCase x @ toUpperCase g \<in> set alternatives"
  shows "toUpperCase g \<notin> set alternatives"
proof -
  from assms(1) obtain a x' where "x = a # x'" by (cases x) auto
  with assms(2) show ?thesis
    by (auto simp: alternatives_eq toUpperCase_def Cons_eq_append_conv append_eq_Cons_conv)
qed

lemma no_earlier_match:
  assumes x: "x \<noteq> []" and g: "toUpperCase g \<in> set alternatives"
    and rest: "list_all dotOrSpace rest" and alt: "alt \<in> set alternatives"
  shows "\<not> matchesAlt (x @ g @ rest) alt"
proof
  assume m: "matchesAlt (x @ g @ rest) alt"
  let ?s = "x @ g @ rest"
  have gne: "g \<noteq> []" using g by (rule token_nonempty)
  have "\<not> dotOrSpace (last (x @ g))"
    using gne token_units [OF g, of "last g"] by simp
  with dropWhile_tail [of "x @ g" dotOrSpace rest] rest
  have "dropWhile dotOrSpace (rev ?s) = rev (x @ g)"
    using gne by simp
  with matchesAlt_tail [OF alt m] have "take (length alt) ?s = x @ g"
    by (metis rev_is_rev_conv)
  moreover from m have "toUpperCase (take (length alt) ?s) = alt"
    by (simp add: matchesAlt_def)
  ultimately have "toUpperCase x @ toUpperCase g = alt"
    by (simp add: toUpperCase_def)
  with alt no_token_inside [OF x, of g] g show False by simp
qed

lemma matchHere_token:
  assumes g: "toUpperCase g \<in> set alternatives" and rest: "list_all dotOrSpace rest"
  shows "matchHere (g @ rest) = Some g"
proof -
  from g consider "toUpperCase g = [72, 73, 71, 72]" | "toUpperCase g = [77, 69, 68]"
    | "toUpperCase g = [76, 79, 87]"
    by (auto simp: alternatives_eq)
  then show ?thesis
  proof cases
    case 1
    then obtain a b c d where "g = [a, b, c, d]"
      by (auto simp: toUpperCase_def)
    with 1 rest show ?thesis
      by (simp add: matchHere_def alternatives_eq matchesAlt_def toUpperCase_def)
  next
    case 2
    then obtain a b c where "g = [a, b, c]"
      by (auto simp: toUpperCase_def)
    with 2 rest show ?thesis
      by (simp add: matchHere_def alternatives_eq matchesAlt_def toUpperCase_def)
  next
    case 3
    then obtain a b c where "g = [a, b, c]"
      by (auto simp: toUpperCase_def)
    with 3 rest show ?thesis
      by (simp add: matchHere_def alternatives_eq matchesAlt_def toUpperCase_def)
  qed
qed

lemma matchHere_Some:
  assumes "matchHere s = Some g"
  shows "\<exists>rest. s = g @ rest \<and> toUpperCase g \<in> set alternatives \<and> list_all dotOrSpace rest"
proof -
  from assms obtain alt where f: "find (matchesAlt s) alternatives = Some alt"
    and g: "g = take (length alt) s"
    by (auto simp: matchHere_def split: option.splits)
  from f have "alt \<in> set alternatives" and "matchesAlt s alt"
    by (auto simp: find_Some_iff)
  then have "s = g @ drop (length alt) s \<and> toUpperCase g \<in> set alternatives \<and>
    list_all dotOrSpace (drop (length alt) s)"
    by (simp add: g matchesAlt_def)
  then show ?thesis ..
qed

lemma matchHere_before:
  assumes "x \<noteq> []" and "toUpperCase g \<in> set alternatives" and "list_all dotOrSpace rest"
  shows "matchHere (x @ g @ rest) = None"
  using no_earlier_match [OF assms]
  by (simp add: matchHere_def find_None_iff split: option.splits)

lemma regexExec_complete:
  assumes "toUpperCase g \<in> set alternatives" and "list_all dotOrSpace rest"
  shows "regexExec (before @ g @ rest) = Some (before, g)"
proof (induction before)
  case Nil
  from assms have "matchHere (g @ rest) = Some g" by (rule matchHere_token)
  then show ?case by (cases "g @ rest") simp_all
next
  case (Cons c before)
  from assms have "matchHere ((c # before) @ g @ rest) = None"
    by (intro matchHere_before) simp_all
  with Cons show ?case by simp
qed

lemma regexExec_sound:
  "regexExec s = Some (before, g) \<Longrightarrow>
     \<exists>rest. s = before @ g @ rest \<and> toUpperCase g \<in> set alternatives \<and> list_all dotOrSpace rest"
proof (induction s arbitrary: before)
  case Nil
  then show ?case
    by (auto split: option.splits dest: matchHere_Some)
next
  case (Cons c cs)
  show ?case
  proof (cases "matchHere (c # cs)")
    case (Some g')
    with Cons.prems have "before = []" and "g' = g" by simp_all
    with matchHere_Some [OF Some] show ?thesis by simp
  next
    case None
    with Cons.prems obtain b' where r: "regexExec cs = Some (b', g)" and b: "before = c # b'"
      by (auto split: option.splits)
    from Cons.IH [OF r] b show ?thesis by auto
  qed
qed

section \<open>The result of processHazardAnalysis\<close>

lemma collapseSpaces_Nil: "collapseSpaces xs = [] \<longleftrightarrow> xs = []"
  by (cases xs) simp_all

lemma trim_Nil: "trim s = [] \<longleftrightarrow> list_all isSpace s"
proof
  assume "trim s = []"
  then have a: "\<forall>c \<in> set (dropWhile isSpace s). isSpace c"
    by (simp add: trim_def dropWhile_eq_Nil_conv)
  show "list_all isSpace s"
  proof (cases "dropWhile isSpace s")
    case Nil
    then show ?thesis by (simp add: dropWhile_eq_Nil_conv list_all_iff)
  next
    case (Cons c cs)
    then have "\<not> isSpace c" by (metis hd_dropWhile list.sel(1) list.distinct(1))
    with a Cons show ?thesis by simp
  qed
next
  assume "list_all isSpace s"
  then show "trim s = []"
    by (auto simp: trim_def list_all_iff dest: set_dropWhileD)
qed

lemma speech_Nil: "collapseSpaces (trim s) = [] \<longleftrightarrow> list_all isSpace s"
  by (simp add: collapseSpaces_Nil trim_Nil)

lemma fallback_nonempty: "js ''Unable to analyze image properly'' \<noteq> []"
  by (simp add: js_def)

lemma processHazardAnalysis_token:
  assumes "toUpperCase g \<in> set alternatives" and "list_all dotOrSpace rest"
  shows "processHazardAnalysis (before @ g @ rest) =
           (if list_all isSpace before
            then \<lparr>speechText = js ''Unable to analyze image properly'', severity = js ''MED''\<rparr>
            else \<lparr>speechText = collapseSpaces (trim before), severity = toUpperCase g\<rparr>)"
  using regexExec_complete [OF assms, of before]
  by (simp add: processHazardAnalysis_def replaceMatch_def speech_Nil)

lemma processHazardAnalysis_no_token:
  assumes "regexExec s = None"
  shows "processHazardAnalysis s =
           (if list_all isSpace s
            then \<lparr>speechText = js ''Unable to analyze image properly'', severity = js ''MED''\<rparr>
            else \<lparr>speechText = collapseSpaces (trim s), severity = js ''MED''\<rparr>)"
  using assms
  by (simp add: processHazardAnalysis_def replaceMatch_def speech_Nil)

lemma trim_no_space: "\<not> list_ex isSpace w \<Longrightarrow> trim w = w"
proof -
  assume a: "\<not> list_ex isSpace w"
  then have 1: "dropWhile isSpace w = w"
    by (cases w) (simp_all add: list_ex_iff)
  from a have 2: "dropWhile isSpace (rev w) = rev w"
    by (cases w rule: rev_cases) (simp_all add: list_ex_iff)
  show ?thesis by (simp add: trim_def 1 2)
qed

lemma collapseSpaces_no_space: "\<not> list_ex isSpace w \<Longrightarrow> collapseSpaces w = w"
  by (induction w) simp_all

text \<open>
  What collapsing does: in its result every white space unit is a space, and no two white
  space units are neighbours.
\<close>

lemma collapseSpaces_units:
  "c \<in> set (collapseSpaces xs) \<Longrightarrow> isSpace c \<Longrightarrow> c = 32"
  by (induction xs rule: collapseSpaces.induct) (auto split: if_splits)

lemma collapseSpaces_hd:
  "xs \<noteq> [] \<Longrightarrow> \<not> isSpace (hd xs) \<Longrightarrow> hd (collapseSpaces xs) = hd xs"
  by (cases xs) simp_all

lemma dropWhile_hd: "dropWhile P xs \<noteq> [] \<Longrightarrow> \<not> P (hd (dropWhile P xs))"
  by (metis hd_dropWhile)

lemma collapseSpaces_runs:
  "successively (\<lambda>a b. \<not> (isSpace a \<and> isSpace b)) (collapseSpaces xs)"
proof (induction xs rule: collapseSpaces.induct)
  case 1
  then show ?case by simp
next
  case (2 c cs)
  show ?case
  proof (cases "isSpace c")
    case True
    let ?r = "dropWhile isSpace cs"
    from True 2 have ih: "successively (\<lambda>a b. \<not> (isSpace a \<and> isSpace b)) (collapseSpaces ?r)"
      by simp
    from True have u: "collapseSpaces (c # cs) = 32 # collapseSpaces ?r"
      by simp
    show ?thesis
    proof (cases ?r)
      case Nil
      show ?thesis unfolding u Nil by simp
    next
      case (Cons d ds)
      then have d: "\<not> isSpace d" using dropWhile_hd [of isSpace cs] by simp
      from ih have "successively (\<lambda>a b. \<not> (isSpace a \<and> isSpace b)) (collapseSpaces (d # ds))"
        unfolding Cons .
      with d show ?thesis unfolding u Cons
        by (simp add: successively_Cons)
    qed
  next
    case False
    with 2 have "successively (\<lambda>a b. \<not> (isSpace a \<and> isSpace b)) (collapseSpaces cs)"
      by simp
    with False show ?thesis
      by (cases "collapseSpaces cs") (simp_all add: successively_Cons)
  qed
qed

lemma regexExec_None_iff:
  "regexExec s = None \<longleftrightarrow>
     \<not> (\<exists>before g rest. s = before @ g @ rest \<and> toUpperCase g \<in> set alternatives \<and>
          list_all dotOrSpace rest)"
proof
  assume n: "regexExec s = None"
  show "\<not> (\<exists>before g rest. s = before @ g @ rest \<and> toUpperCase g \<in> set alternatives \<and>
          list_all dotOrSpace rest)"
  proof
    assume "\<exists>before g rest. s = before @ g @ rest \<and> toUpperCase g \<in> set alternatives \<and>
          list_all dotOrSpace rest"
    then obtain before g rest where "s = before @ g @ rest"
      and "toUpperCase g \<in> set alternatives" and "list_all dotOrSpace rest"
      by blast
    with regexExec_complete [of g rest before] n show False by simp
  qed
next
  assume a: "\<not> (\<exists>before g rest. s = before @ g @ rest \<and> toUpperCase g \<in> set alternatives \<and>
          list_all dotOrSpace rest)"
  show "regexExec s = None"
  proof (cases "regexExec s")
    case None
    then show ?thesis .
  next
    case (Some m)
    obtain before g where "m = (before, g)" by (cases m)
    with Some regexExec_sound [of s before g] a show ?thesis by blast
  qed
qed

lemma token_HIGH: "toUpperCase (js ''HIGH'') \<in> set alternatives"
  by (simp add: alternatives_eq js_def toUpperCase_def toUpperUnit_def)

lemma token_LOW: "toUpperCase (js ''LOW'') \<in> set alternatives"
  by (simp add: alternatives_eq js_def toUpperCase_def toUpperUnit_def)

lemma token_MED: "toUpperCase (js ''MED'') \<in> set alternatives"
  by (simp add: alternatives_eq js_def toUpperCase_def toUpperUnit_def)

text \<open>
  C1, as the claim states it, fails on the free-text path: the model's text
  \<open>STOP. Car ahead. LOW\<close> is answered with a speechText that begins with STOP and
  the severity LOW.
\<close>

theorem processHazardAnalysis_stop_low:
  "processHazardAnalysis (js ''STOP. Car ahead. LOW'') =
     \<lparr>speechText = js ''STOP. Car ahead.'', severity = js ''LOW''\<rparr>"
proof -
  have s: "js ''STOP. Car ahead. LOW'' = js ''STOP. Car ahead. '' @ js ''LOW'' @ []"
    by (simp add: js_def)
  show ?thesis
    unfolding s
    by (subst processHazardAnalysis_token [OF token_LOW])
      (simp_all add: js_def trim_def isSpace_def toUpperCase_def toUpperUnit_def)
qed

text \<open>
  C4, as the claim states it, fails: on the text \<open>HIGH\<close> the token is matched, and
  the severity returned is MED, not the token.
\<close>

theorem processHazardAnalysis_lone_token:
  "regexExec (js ''HIGH'') = Some ([], js ''HIGH'') \<and>
   processHazardAnalysis (js ''HIGH'') =
     \<lparr>speechText = js ''Unable to analyze image properly'', severity = js ''MED''\<rparr>"
  using regexExec_complete [OF token_HIGH, of "[]" "[]"]
    processHazardAnalysis_token [OF token_HIGH, of "[]" "[]"]
  by simp

text \<open>
  C4, as amended. A text that ends with HIGH, MED or LOW in any case of the letters,
  followed by dots and white space only, and that has more than white space before the
  token, gives the upper-cased token as the severity and, as the speechText, the text
  before the token, trimmed and with every run of white space collapsed to one space. (A
  text with only white space before the token gives the fallback of C9.) A text with no
  such token gives the severity MED. The text
  \<open>STOP. Construction barriers ahead. HIGH\<close> gives the speech
  \<open>STOP. Construction barriers ahead.\<close> and the severity HIGH.
\<close>

theorem processHazardAnalysis_parse:
  "(toUpperCase g \<in> set alternatives \<and> list_all dotOrSpace rest \<and> \<not> list_all isSpace before
      \<longrightarrow> processHazardAnalysis (before @ g @ rest) =
            \<lparr>speechText = collapseSpaces (trim before), severity = toUpperCase g\<rparr>) \<and>
   (regexExec s = None \<longleftrightarrow>
      \<not> (\<exists>before g rest. s = before @ g @ rest \<and> toUpperCase g \<in> set alternatives \<and>
           list_all dotOrSpace rest)) \<and>
   (regexExec s = None
      \<longrightarrow> severity (processHazardAnalysis s) = js ''MED'' \<and>
          (\<not> list_all isSpace s \<longrightarrow>
             speechText (processHazardAnalysis s) = collapseSpaces (trim s))) \<and>
   processHazardAnalysis (js ''STOP. Construction barriers ahead. HIGH'') =
     \<lparr>speechText = js ''STOP. Construction barriers ahead.'', severity = js ''HIGH''\<rparr>"
proof (intro conjI impI)
  assume "toUpperCase g \<in> set alternatives \<and> list_all dotOrSpace rest \<and>
    \<not> list_all isSpace before"
  then show "processHazardAnalysis (before @ g @ rest) =
            \<lparr>speechText = collapseSpaces (trim before), severity = toUpperCase g\<rparr>"
    by (simp add: processHazardAnalysis_token)
next
  show "regexExec s = None \<longleftrightarrow>
      \<not> (\<exists>before g rest. s = before @ g @ rest \<and> toUpperCase g \<in> set alternatives \<and>
           list_all dotOrSpace rest)"
    by (rule regexExec_None_iff)
next
  assume "regexExec s = None"
  then show "severity (processHazardAnalysis s) = js ''MED''"
    by (simp add: processHazardAnalysis_no_token)
next
  assume "regexExec s = None" and "\<not> list_all isSpace s"
  then show "speechText (processHazardAnalysis s) = collapseSpaces (trim s)"
    by (simp add: processHazardAnalysis_no_token)
next
  have s: "js ''STOP. Construction barriers ahead. HIGH'' =
    js ''STOP. Construction barriers ahead. '' @ js ''HIGH'' @ []"
    by (simp add: js_def)
  show "processHazardAnalysis (js ''STOP. Construction barriers ahead. HIGH'') =
     \<lparr>speechText = js ''STOP. Construction barriers ahead.'', severity = js ''HIGH''\<rparr>"
    unfolding s
    by (subst processHazardAnalysis_token [OF token_HIGH])
      (simp_all add: js_def trim_def isSpace_def toUpperCase_def toUpperUnit_def)
qed

theorem processHazardAnalysis_parse_witness:
  "toUpperCase (js ''high'') \<in> set alternatives \<and> list_all dotOrSpace (js ''. '') \<and>
   \<not> list_all isSpace (js ''Slow  down '') \<and>
   processHazardAnalysis (js ''Slow  down high. '') =
     \<lparr>speechText = js ''Slow down'', severity = js ''HIGH''\<rparr> \<and>
   regexExec (js ''Walk straight, clear path.'') = None \<and>
   \<not> list_all isSpace (js ''Walk straight, clear path.'') \<and>
   processHazardAnalysis (js ''Walk straight, clear path.'') =
     \<lparr>speechText = js ''Walk straight, clear path.'', severity = js ''MED''\<rparr>"
proof -
  have a: "toUpperCase (js ''high'') \<in> set alternatives \<and> list_all dotOrSpace (js ''. '') \<and>
    \<not> list_all isSpace (js ''Slow  down '')"
    by (simp add: alternatives_eq js_def toUpperCase_def toUpperUnit_def dotOrSpace_def
        isSpace_def)
  have b: "regexExec (js ''Walk straight, clear path.'') = None"
    by (simp add: js_def matchHere_def alternatives_eq matchesAlt_def toUpperCase_def
        toUpperUnit_def dotOrSpace_def isSpace_def)
  have c: "\<not> list_all isSpace (js ''Walk straight, clear path.'')"
    by (simp add: js_def isSpace_def)
  have d: "js ''Slow  down high. '' = js ''Slow  down '' @ js ''high'' @ js ''. ''"
    by (simp add: js_def)
  have e: "collapseSpaces (trim (js ''Slow  down '')) = js ''Slow down''"
    "toUpperCase (js ''high'') = js ''HIGH''"
    "collapseSpaces (trim (js ''Walk straight, clear path.'')) = js ''Walk straight, clear path.''"
    by (simp_all add: js_def trim_def isSpace_def toUpperCase_def toUpperUnit_def)
  have f: "processHazardAnalysis (js ''Walk straight, clear path.'') =
     \<lparr>speechText = speechText (processHazardAnalysis (js ''Walk straight, clear path.'')),
      severity = severity (processHazardAnalysis (js ''Walk straight, clear path.''))\<rparr>"
    by simp
  from processHazardAnalysis_parse
    [of "js ''high''" "js ''. ''" "js ''Slow  down ''" "js ''Walk straight, clear path.''"]
    a b c
  have "processHazardAnalysis (js ''Slow  down '' @ js ''high'' @ js ''. '') =
      \<lparr>speechText = collapseSpaces (trim (js ''Slow  down '')), severity = toUpperCase (js ''high'')\<rparr> \<and>
    severity (processHazardAnalysis (js ''Walk straight, clear path.'')) = js ''MED'' \<and>
    speechText (processHazardAnalysis (js ''Walk straight, clear path.'')) =
      collapseSpaces (trim (js ''Walk straight, clear path.''))"
    by blast
  with a b c show ?thesis
    unfolding d e by (subst f) simp
qed

text \<open>
  C9. The speechText of every result is non-empty. When the text left after cutting the
  token off, trimmed and collapsed, is empty, which is when only white space stands
  before the token, the result is the fixed phrase \<open>Unable to analyze image properly\<close>
  with the severity MED.
\<close>

theorem processHazardAnalysis_speech_nonempty:
  "speechText (processHazardAnalysis s) \<noteq> [] \<and>
   (collapseSpaces (trim (replaceMatch s)) = []
      \<longrightarrow> processHazardAnalysis s =
            \<lparr>speechText = js ''Unable to analyze image properly'', severity = js ''MED''\<rparr>) \<and>
   (toUpperCase g \<in> set alternatives \<and> list_all dotOrSpace rest \<and> list_all isSpace before
      \<longrightarrow> replaceMatch (before @ g @ rest) = before \<and>
          processHazardAnalysis (before @ g @ rest) =
            \<lparr>speechText = js ''Unable to analyze image properly'', severity = js ''MED''\<rparr>)"
proof (intro conjI impI)
  show "speechText (processHazardAnalysis s) \<noteq> []"
    by (simp add: processHazardAnalysis_def Let_def fallback_nonempty)
next
  assume "collapseSpaces (trim (replaceMatch s)) = []"
  then show "processHazardAnalysis s =
            \<lparr>speechText = js ''Unable to analyze image properly'', severity = js ''MED''\<rparr>"
    by (simp add: processHazardAnalysis_def)
next
  assume a: "toUpperCase g \<in> set alternatives \<and> list_all dotOrSpace rest \<and>
    list_all isSpace before"
  then show "replaceMatch (before @ g @ rest) = before"
    by (simp add: replaceMatch_def regexExec_complete)
  from a show "processHazardAnalysis (before @ g @ rest) =
            \<lparr>speechText = js ''Unable to analyze image properly'', severity = js ''MED''\<rparr>"
    by (simp add: processHazardAnalysis_token)
qed

theorem processHazardAnalysis_speech_nonempty_witness:
  "toUpperCase (js ''Low'') \<in> set alternatives \<and> list_all dotOrSpace (js ''. '') \<and>
   list_all isSpace (js ''  '') \<and>
   replaceMatch (js ''  Low. '') = js ''  '' \<and>
   collapseSpaces (trim (js ''  '')) = [] \<and>
   processHazardAnalysis (js ''  Low. '') =
     \<lparr>speechText = js ''Unable to analyze image properly'', severity = js ''MED''\<rparr> \<and>
   speechText (processHazardAnalysis (js ''  Low. '')) \<noteq> []"
proof -
  have a: "toUpperCase (js ''Low'') \<in> set alternatives \<and> list_all dotOrSpace (js ''. '') \<and>
    list_all isSpace (js ''  '')"
    by (simp add: alternatives_eq js_def toUpperCase_def toUpperUnit_def dotOrSpace_def
        isSpace_def)
  have d: "js ''  Low. '' = js ''  '' @ js ''Low'' @ js ''. ''"
    by (simp add: js_def)
  have e: "collapseSpaces (trim (js ''  '')) = []"
    by (simp add: js_def trim_def isSpace_def)
  from processHazardAnalysis_speech_nonempty
    [of "js ''  Low. ''" "js ''Low''" "js ''. ''" "js ''  ''"] a
  show ?thesis
    unfolding d by (simp add: e fallback_nonempty)
qed

text \<open>
  C10. The token needs no word boundary before it: whatever stands before the letters
  HIGH, MED or LOW (in any case) at the end of a text, the regular expression matches
  these letters as the token and cuts them off. When more than white space stands before
  them, the severity is the upper-cased token and the speech is what is left; for the last
  letters of a longer word, that is the stem of the word.
\<close>

theorem processHazardAnalysis_no_word_boundary:
  assumes "toUpperCase g \<in> set alternatives"
  shows "regexExec (before @ g) = Some (before, g) \<and>
         (\<not> list_all isSpace before \<longrightarrow>
            processHazardAnalysis (before @ g) =
              \<lparr>speechText = collapseSpaces (trim before), severity = toUpperCase g\<rparr>) \<and>
         (before \<noteq> [] \<and> \<not> list_ex isSpace before \<longrightarrow>
            processHazardAnalysis (before @ g) =
              \<lparr>speechText = before, severity = toUpperCase g\<rparr>)"
proof (intro conjI impI)
  show "regexExec (before @ g) = Some (before, g)"
    using regexExec_complete [OF assms, of "[]" before] by simp
next
  assume "\<not> list_all isSpace before"
  then show "processHazardAnalysis (before @ g) =
              \<lparr>speechText = collapseSpaces (trim before), severity = toUpperCase g\<rparr>"
    using processHazardAnalysis_token [OF assms, of "[]" before] by simp
next
  assume a: "before \<noteq> [] \<and> \<not> list_ex isSpace before"
  then have "\<not> list_all isSpace before"
    by (cases before) (simp_all add: list_ex_iff)
  with a show "processHazardAnalysis (before @ g) =
              \<lparr>speechText = before, severity = toUpperCase g\<rparr>"
    using processHazardAnalysis_token [OF assms, of "[]" before]
    by (simp add: trim_no_space collapseSpaces_no_space)
qed

theorem processHazardAnalysis_no_word_boundary_witness:
  "toUpperCase (js ''MED'') \<in> set alternatives \<and>
   regexExec (js ''AHMED'') = Some (js ''AH'', js ''MED'') \<and>
   processHazardAnalysis (js ''AHMED'') = \<lparr>speechText = js ''AH'', severity = js ''MED''\<rparr> \<and>
   toUpperCase (js ''high'') \<in> set alternatives \<and>
   processHazardAnalysis (js ''Mind your thigh'') =
     \<lparr>speechText = js ''Mind your t'', severity = js ''HIGH''\<rparr>"
proof -
  have a: "toUpperCase (js ''MED'') \<in> set alternatives"
    "toUpperCase (js ''high'') \<in> set alternatives"
    by (simp_all add: alternatives_eq js_def toUpperCase_def toUpperUnit_def)
  have d: "js ''AHMED'' = js ''AH'' @ js ''MED''"
    "js ''Mind your thigh'' = js ''Mind your t'' @ js ''high''"
    by (simp_all add: js_def)
  have e: "js ''AH'' \<noteq> [] \<and> \<not> list_ex isSpace (js ''AH'')"
    "\<not> list_all isSpace (js ''Mind your t'')"
    "collapseSpaces (trim (js ''Mind your t'')) = js ''Mind your t''"
    "toUpperCase (js ''MED'') = js ''MED''" "toUpperCase (js ''high'') = js ''HIGH''"
    by (simp_all add: js_def trim_def isSpace_def toUpperCase_def toUpperUnit_def)
  from processHazardAnalysis_no_word_boundary [OF a(1), of "js ''AH''"]
    processHazardAnalysis_no_word_boundary [OF a(2), of "js ''Mind your t''"] a e(1,2)
  show ?thesis
    unfolding d by (simp add: e(3,4,5))
qed

section \<open>Properties of the image checks\<close>








lemma DecodeString_hello: "StdEncoding_DecodeString ''aGVsbG8='' = Some [104, 101, 108, 108, 111]"
  by (simp add: StdEncoding_DecodeString_def decodeMap_def encodeStd_def isNewline_def
      quantumBytes_def)





section \<open>Properties of searchPlaces\<close>

lemma placeLocations_Inr:
  "placeLocations ps = Inr dests \<longleftrightarrow> map location ps = map Some dests"
proof (induction ps arbitrary: dests)
  case Nil
  then show ?case by auto
next
  case (Cons p ps)
  show ?case
  proof (cases "location p")
    case None
    then show ?thesis by (cases dests) auto
  next
    case (Some c)
    show ?thesis
    proof (cases "placeLocations ps")
      case (Inl e)
      with Cons.IH Some show ?thesis
        by (cases dests) auto
    next
      case (Inr cs)
      with Cons.IH Some show ?thesis
        by (cases dests) auto
    qed
  qed
qed

lemma combine_Nil: "combine [] index rows = Inr ([] :: ('n, 'p, 'd) EnrichedPlace list)"
  by simp

lemma combine_Inr:
  assumes "combine ps index rows = Inr rs"
  shows "map place rs = ps \<and>
         (\<forall>i < length rs. \<exists>elements more. rows = elements # more \<and> index + i < length elements \<and>
            placeDistance (rs ! i) = distance (elements ! (index + i)) \<and>
            placeDuration (rs ! i) = duration (elements ! (index + i)))"
  using assms
proof (induction ps arbitrary: index rs)
  case Nil
  then show ?case by simp
next
  case (Cons p ps)
  from Cons.prems obtain elements more where rows: "rows = elements # more"
    by (cases rows) auto
  from Cons.prems rows have lt: "index < length elements"
    by (auto split: if_splits)
  from Cons.prems rows lt obtain rs' where
    rs': "combine ps (Suc index) rows = Inr rs'"
    and rs: "rs = \<lparr>place = p, placeDistance = distance (elements ! index),
                       placeDuration = duration (elements ! index)\<rparr> # rs'"
    by (auto split: sum.splits)
  from Cons.IH [OF rs'] have ih1: "map place rs' = ps"
    and ih2: "\<And>i. i < length rs' \<Longrightarrow> Suc index + i < length elements \<and>
            placeDistance (rs' ! i) = distance (elements ! (Suc index + i)) \<and>
            placeDuration (rs' ! i) = duration (elements ! (Suc index + i))"
    by (auto simp: rows)
  have "\<forall>i < length rs. index + i < length elements \<and>
            placeDistance (rs ! i) = distance (elements ! (index + i)) \<and>
            placeDuration (rs ! i) = duration (elements ! (index + i))"
  proof (intro allI impI)
    fix i assume i: "i < length rs"
    show "index + i < length elements \<and>
            placeDistance (rs ! i) = distance (elements ! (index + i)) \<and>
            placeDuration (rs ! i) = duration (elements ! (index + i))"
    proof (cases i)
      case 0
      then show ?thesis using lt by (simp add: rs)
    next
      case (Suc j)
      with i have "j < length rs'" by (simp add: rs)
      from ih2 [OF this] Suc show ?thesis by (simp add: rs)
    qed
  qed
  with ih1 show ?case by (simp add: rs rows)
qed


lemma take4: "(if length found > 4 then take 4 found else found) = take 4 found"
  by simp

text \<open>
  C5, as the claim states it, fails: with an empty list of places from the place search
  the function still sends the request to the distance matrix, with no destination, and
  then returns the empty list.
\<close>

theorem searchPlaces_empty_calls_distance:
  "searchPlaces (\<lambda>n. n)
     (\<lambda>body. Inr (Some ([] :: (string, string) Place list)))
     (\<lambda>params. Inr ([[]] :: string Element list list))
     ''pharmacy'' \<lparr>latitude = ''13.0'', longitude = ''100.0''\<rparr> ''10000''
     ''places.displayName,places.formattedAddress,places.location'' ''DISTANCE''
   = ([PlacesCall
         \<lparr>bodyTextQuery = ''pharmacy'',
          biasCenter = \<lparr>latitude = ''13.0'', longitude = ''100.0''\<rparr>,
          biasRadius = ''10000'', bodyRankPreference = ''DISTANCE'',
          fieldMask = ''places.displayName,places.formattedAddress,places.location''\<rparr>,
       DistanceCall \<lparr>origins = ''13.0,100.0'', destinations = [], mode = ''walking''\<rparr>],
      Inr [])"
  by (simp add: searchPlaces_def searchBody_def distanceParams_def latLng_def)

text \<open>
  C5, as amended. When the place search returns an empty list, the function makes both
  requests, the second with an empty list of destinations; it returns the empty list when
  that request succeeds, whatever the rows are, and throws the error when it fails.
\<close>

theorem searchPlaces_no_candidates:
  assumes "placesApi (searchBody textQuery cur radius fields' rank) = Inr (Some [])"
  shows "fst (searchPlaces show placesApi distanceApi textQuery cur radius fields' rank) =
           [PlacesCall (searchBody textQuery cur radius fields' rank),
            DistanceCall (distanceParams show cur [])] \<and>
         destinations (distanceParams show cur []) = [] \<and>
         (distanceApi (distanceParams show cur []) = Inr rows \<longrightarrow>
            snd (searchPlaces show placesApi distanceApi textQuery cur radius fields' rank) = Inr []) \<and>
         (distanceApi (distanceParams show cur []) = Inl message \<longrightarrow>
            snd (searchPlaces show placesApi distanceApi textQuery cur radius fields' rank)
              = Inl (ApiError message))"
  using assms
  by (auto simp: searchPlaces_def Let_def distanceParams_def split: sum.splits)

text \<open>
  C6. The request to the distance matrix carries the locations of the first four places
  found, in their order. When the function returns a list, it is these places in their
  order, the place at index \<open>i\<close> with the distance and the duration of the element
  at index \<open>i\<close> of the first row; the coordinates play no part in the merge.
\<close>

theorem searchPlaces_merge_by_index:
  "(placesApi (searchBody textQuery cur radius fields' rank) = Inr (Some found) \<and>
    map location (take 4 found) = map Some dests
      \<longrightarrow> fst (searchPlaces show placesApi distanceApi textQuery cur radius fields' rank) =
            [PlacesCall (searchBody textQuery cur radius fields' rank),
             DistanceCall (distanceParams show cur dests)]) \<and>
   (searchPlaces show placesApi distanceApi textQuery cur radius fields' rank = (calls, Inr result)
      \<longrightarrow> (\<exists>found dests rows.
             placesApi (searchBody textQuery cur radius fields' rank) = Inr (Some found) \<and>
             map location (take 4 found) = map Some dests \<and>
             calls = [PlacesCall (searchBody textQuery cur radius fields' rank),
                      DistanceCall (distanceParams show cur dests)] \<and>
             distanceApi (distanceParams show cur dests) = Inr rows \<and>
             map place result = take 4 found \<and>
             (\<forall>i < length result. \<exists>elements more. rows = elements # more \<and>
                i < length elements \<and>
                placeDistance (result ! i) = distance (elements ! i) \<and>
                placeDuration (result ! i) = duration (elements ! i))))"
proof (intro conjI impI)
  assume "placesApi (searchBody textQuery cur radius fields' rank) = Inr (Some found) \<and>
    map location (take 4 found) = map Some dests"
  then have "placesApi (searchBody textQuery cur radius fields' rank) = Inr (Some found)"
    and "placeLocations (take 4 found) = Inr dests"
    by (simp_all add: placeLocations_Inr)
  then show "fst (searchPlaces show placesApi distanceApi textQuery cur radius fields' rank) =
            [PlacesCall (searchBody textQuery cur radius fields' rank),
             DistanceCall (distanceParams show cur dests)]"
    by (simp add: searchPlaces_def Let_def take4 split: sum.splits)
next
  let ?body = "searchBody textQuery cur radius fields' rank"
  assume a: "searchPlaces show placesApi distanceApi textQuery cur radius fields' rank
    = (calls, Inr result)"
  then obtain found where found: "placesApi ?body = Inr (Some found)"
    by (auto simp: searchPlaces_def Let_def split: sum.splits option.splits)
  with a obtain dests where dests: "placeLocations (take 4 found) = Inr dests"
    by (auto simp: searchPlaces_def Let_def take4 split: sum.splits)
  with a found obtain rows where rows: "distanceApi (distanceParams show cur dests) = Inr rows"
    by (auto simp: searchPlaces_def Let_def take4 split: sum.splits)
  from a found dests rows have calls: "calls = [PlacesCall ?body,
      DistanceCall (distanceParams show cur dests)]"
    and c: "combine (take 4 found) 0 rows = Inr result"
    by (simp_all add: searchPlaces_def Let_def take4)
  from combine_Inr [OF c] found dests rows calls
  show "\<exists>found dests rows.
             placesApi ?body = Inr (Some found) \<and>
             map location (take 4 found) = map Some dests \<and>
             calls = [PlacesCall ?body, DistanceCall (distanceParams show cur dests)] \<and>
             distanceApi (distanceParams show cur dests) = Inr rows \<and>
             map place result = take 4 found \<and>
             (\<forall>i < length result. \<exists>elements more. rows = elements # more \<and>
                i < length elements \<and>
                placeDistance (result ! i) = distance (elements ! i) \<and>
                placeDuration (result ! i) = duration (elements ! i))"
    by (auto simp: placeLocations_Inr)
qed


theorem searchPlaces_no_candidates_witness:
  "fst (searchPlaces (\<lambda>n. n)
     (\<lambda>body. Inr (Some ([] :: (string, string) Place list)))
     (\<lambda>params. Inr ([[]] :: string Element list list))
     ''pharmacy'' \<lparr>latitude = ''13.0'', longitude = ''100.0''\<rparr> ''10000''
     ''places.location'' ''DISTANCE'')
   = [PlacesCall
         \<lparr>bodyTextQuery = ''pharmacy'',
          biasCenter = \<lparr>latitude = ''13.0'', longitude = ''100.0''\<rparr>,
          biasRadius = ''10000'', bodyRankPreference = ''DISTANCE'',
          fieldMask = ''places.location''\<rparr>,
       DistanceCall \<lparr>origins = ''13.0,100.0'', destinations = [], mode = ''walking''\<rparr>] \<and>
   snd (searchPlaces (\<lambda>n. n)
     (\<lambda>body. Inr (Some ([] :: (string, string) Place list)))
     (\<lambda>params. Inr ([[]] :: string Element list list))
     ''pharmacy'' \<lparr>latitude = ''13.0'', longitude = ''100.0''\<rparr> ''10000''
     ''places.location'' ''DISTANCE'') = Inr []"
  using searchPlaces_no_candidates
    [of "\<lambda>body. Inr (Some ([] :: (string, string) Place list))"
        "''pharmacy''" "\<lparr>latitude = ''13.0'', longitude = ''100.0''\<rparr>" "''10000''"
        "''places.location''" "''DISTANCE''" "\<lambda>n. n"
        "\<lambda>params. Inr ([[]] :: string Element list list)" "[[]]"]
  by (simp add: searchBody_def distanceParams_def latLng_def)

theorem searchPlaces_merge_by_index_witness:
  "(let a = \<lparr>location = Some \<lparr>latitude = ''13.1'', longitude = ''100.1''\<rparr>, properties = ''A''\<rparr>;
        b = \<lparr>location = Some \<lparr>latitude = ''13.1'', longitude = ''100.1''\<rparr>, properties = ''B''\<rparr>;
        c = \<lparr>location = Some \<lparr>latitude = ''13.3'', longitude = ''100.3''\<rparr>, properties = ''C''\<rparr>;
        d = \<lparr>location = Some \<lparr>latitude = ''13.4'', longitude = ''100.4''\<rparr>, properties = ''D''\<rparr>;
        e = \<lparr>location = Some \<lparr>latitude = ''13.5'', longitude = ''100.5''\<rparr>, properties = ''E''\<rparr>;
        f = \<lparr>location = None, properties = ''F''\<rparr>;
        elements = [\<lparr>distance = Some ''110 m'', duration = Some ''1 min''\<rparr>,
                    \<lparr>distance = Some ''120 m'', duration = Some ''2 mins''\<rparr>,
                    \<lparr>distance = None, duration = None\<rparr>,
                    \<lparr>distance = Some ''140 m'', duration = Some ''4 mins''\<rparr>]
    in searchPlaces (\<lambda>n. n) (\<lambda>body. Inr (Some [a, b, c, d, e, f])) (\<lambda>params. Inr [elements])
         ''pharmacy'' \<lparr>latitude = ''13.0'', longitude = ''100.0''\<rparr> ''10000''
         ''places.location'' ''DISTANCE''
       = ([PlacesCall (searchBody ''pharmacy'' \<lparr>latitude = ''13.0'', longitude = ''100.0''\<rparr>
                         ''10000'' ''places.location'' ''DISTANCE''),
           DistanceCall
             \<lparr>origins = ''13.0,100.0'',
              destinations = ''13.1,100.1|13.1,100.1|13.3,100.3|13.4,100.4'',
              mode = ''walking''\<rparr>],
          Inr [\<lparr>place = a, placeDistance = Some ''110 m'', placeDuration = Some ''1 min''\<rparr>,
               \<lparr>place = b, placeDistance = Some ''120 m'', placeDuration = Some ''2 mins''\<rparr>,
               \<lparr>place = c, placeDistance = None, placeDuration = None\<rparr>,
               \<lparr>place = d, placeDistance = Some ''140 m'', placeDuration = Some ''4 mins''\<rparr>]))"
  using searchPlaces_merge_by_index
    [of "\<lambda>body. Inr (Some
           [\<lparr>location = Some \<lparr>latitude = ''13.1'', longitude = ''100.1''\<rparr>, properties = ''A''\<rparr>,
            \<lparr>location = Some \<lparr>latitude = ''13.1'', longitude = ''100.1''\<rparr>, properties = ''B''\<rparr>,
            \<lparr>location = Some \<lparr>latitude = ''13.3'', longitude = ''100.3''\<rparr>, properties = ''C''\<rparr>,
            \<lparr>location = Some \<lparr>latitude = ''13.4'', longitude = ''100.4''\<rparr>, properties = ''D''\<rparr>,
            \<lparr>location = Some \<lparr>latitude = ''13.5'', longitude = ''100.5''\<rparr>, properties = ''E''\<rparr>,
            \<lparr>location = None, properties = ''F''\<rparr>])"
        "''pharmacy''" "\<lparr>latitude = ''13.0'', longitude = ''100.0''\<rparr>" "''10000''"
        "''places.location''" "''DISTANCE''"]
  by (simp add: searchPlaces_def Let_def distanceParams_def latLng_def)

end
